theory Spec2Isabelle
  imports Main "HOL-Library.Char_ord" "HOL-Library.Multiset" "HOL-Library.AList"
begin

section \<open>Subanagram search: a shallow embedding of \<^verbatim>\<open>solver.py\<close>\<close>

text \<open>
  The program builds a lookup table from a word list (\<^verbatim>\<open>generate_lookup\<close>), stores it in
  the file \<^verbatim>\<open>lookup.p\<close>, and answers a query by scanning the table
  (\<^verbatim>\<open>get_results\<close>); \<^verbatim>\<open>print_results\<close> writes the answer grouped by word length.

  Modelling decisions.
  \<^item> A Python \<^verbatim>\<open>str\<close> is a \<^typ>\<open>string\<close>. A \<^typ>\<open>char\<close> stands for the code point of
    the same number, so the model covers the strings of code points U+0000 to U+00FF;
    \<^verbatim>\<open>str.lower\<close>, \<^verbatim>\<open>str.isspace\<close> and the order used by \<^verbatim>\<open>sorted\<close> are
    Python's on that range.
  \<^item> A \<^verbatim>\<open>dict\<close> is an association list in insertion order, a \<^verbatim>\<open>set\<close> of strings is a
    \<^typ>\<open>string set\<close>, a Python \<^verbatim>\<open>int\<close> is an \<^typ>\<open>int\<close>.
  \<^item> The files the program reads and writes are a map from paths to contents; a
    content is what the program can get from the file: its text, and the outcome of
    unpickling it. Every exception the program can raise is a value of \<open>error\<close>.
\<close>

subsection \<open>Strings\<close>

text \<open>\<^verbatim>\<open>string.ascii_lowercase\<close>.\<close>

definition ascii_lowercase :: string where
  "ascii_lowercase = ''abcdefghijklmnopqrstuvwxyz''"

text \<open>
  \<^verbatim>\<open>str.lower\<close> on one code point below 256: the uppercase letters are A to Z
  (65 to 90) and U+00C0 to U+00DE without the multiplication sign U+00D7; each maps
  to the code point 32 above it.
\<close>

definition lower_char :: "char \<Rightarrow> char" where
  "lower_char c =
     (let n = (of_char c :: nat)
      in if (65 \<le> n \<and> n \<le> 90) \<or> (192 \<le> n \<and> n \<le> 222 \<and> n \<noteq> 215)
         then char_of (n + 32) else c)"

definition lower :: "string \<Rightarrow> string" where
  "lower s = map lower_char s"

text \<open>
  \<^verbatim>\<open>str.isspace\<close> on one code point below 256: tab to carriage return (9 to 13), the
  separators 28 to 31, the space, U+0085 and U+00A0.
\<close>

definition isspace :: "char \<Rightarrow> bool" where
  "isspace c =
     (let n = (of_char c :: nat)
      in (9 \<le> n \<and> n \<le> 13) \<or> (28 \<le> n \<and> n \<le> 32) \<or> n = 133 \<or> n = 160)"

text \<open>\<^verbatim>\<open>str.rstrip()\<close>: the string without its trailing whitespace.\<close>

definition rstrip :: "string \<Rightarrow> string" where
  "rstrip s = rev (dropWhile isspace (rev s))"

text \<open>\<^verbatim>\<open>''.join(sorted(word))\<close>: the characters of the word in code point order.\<close>

definition sorted_word :: "string \<Rightarrow> string" where
  "sorted_word word = sort word"

subsection \<open>\<^verbatim>\<open>vectorize_word\<close>\<close>

text \<open>
  \<^verbatim>\<open>
  word_vectorized = list()
  for letter in ascii_lowercase:
      word_vectorized.append( word.count(letter) )
  return word_vectorized
  \<close>
\<close>

definition vectorize_word :: "string \<Rightarrow> int list" where
  "vectorize_word word = map (\<lambda>letter. int (count_list word letter)) ascii_lowercase"

subsection \<open>Files and errors\<close>

type_synonym anagrams = "(string \<times> string set) list"
type_synonym vectors = "(string \<times> int list) list"

text \<open>
  The exceptions of a run. \<^verbatim>\<open>pickle.load\<close> raises \<^verbatim>\<open>EOFError\<close> on an empty file and
  \<^verbatim>\<open>UnpicklingError\<close> on bytes that are no pickle; \<open>OtherError\<close> is any other
  exception, by the name of its class (what a callable named by a pickle raises, or
  the \<^verbatim>\<open>TypeError\<close> or \<^verbatim>\<open>ValueError\<close> of unpacking a loaded value that is not a pair).
\<close>

datatype error =
  FileNotFoundError | UnicodeDecodeError | UnpicklingError | EOFError | KeyError | IndexError
  | OtherError string

text \<open>
  The program gets two things from a file. Opened as text (the word list), the file
  gives the text it decodes to, or \<^verbatim>\<open>UnicodeDecodeError\<close> when its bytes are not UTF-8:
  this is \<open>text_of\<close>. Given to \<^verbatim>\<open>pickle.load\<close> (the file \<^verbatim>\<open>lookup.p\<close>), the file
  gives a pair of dictionaries or an exception: this is \<open>unpickle\<close>. A pickle is a
  program for the unpickler and may name callables to call, so the outcome of loading
  it may depend on what the files hold at that moment; \<open>unpickle\<close> takes the texts
  of the files, by path. The two are independent: an ASCII text may be a pickle of
  protocol 0. A file whose loading writes files is outside the model.
\<close>

type_synonym loader = "(string \<rightharpoonup> string) \<Rightarrow> error + (anagrams \<times> vectors)"

datatype file_content = File (text_of: "string option") (unpickle: loader)

type_synonym filesystem = "string \<rightharpoonup> file_content"

text \<open>The texts of the files, by path, as a callable run by the unpickler can read them.\<close>

definition texts_of :: "filesystem \<Rightarrow> (string \<rightharpoonup> string)" where
  "texts_of fs = (\<lambda>path. case fs path of None \<Rightarrow> None | Some file \<Rightarrow> text_of file)"

text \<open>
  The file that
  \<^verbatim>\<open>pickle.dump( ( anagrams, vectors, ), lookup_file, protocol=pickle.HIGHEST_PROTOCOL )\<close>
  writes: a binary pickle of plain data. It starts with the byte 0x80, so it is not
  UTF-8 text, and loading it gives the pair back whatever the other files hold.
\<close>

definition Pickle :: "anagrams \<Rightarrow> vectors \<Rightarrow> file_content" where
  "Pickle anagrams vectors = File None (\<lambda>texts. Inr (anagrams, vectors))"

definition lookup_p :: string where
  "lookup_p = ''lookup.p''"

subsection \<open>Reading the word list\<close>

text \<open>
  \<^verbatim>\<open>wordlist_file.readline()\<close> on the text still unread: the line up to and including
  its end, and the rest. The file is opened in text mode with universal newlines, so
  a line ends at \<^verbatim>\<open>\n\<close>, \<^verbatim>\<open>\r\n\<close> or \<^verbatim>\<open>\r\<close> and the end is returned as \<^verbatim>\<open>\n\<close>. At
  the end of the file the line is empty.
\<close>

fun readline :: "string \<Rightarrow> string \<times> string" where
  "readline [] = ([], [])"
| "readline (c # cs) =
     (if c = CHR 0x0A then ([CHR 0x0A], cs)
      else if c = CHR 0x0D
        then ([CHR 0x0A], (case cs of [] \<Rightarrow> [] | d # ds \<Rightarrow> if d = CHR 0x0A then ds else cs))
      else (c # fst (readline cs), snd (readline cs)))"

lemma readline_rest_le: "length (snd (readline s)) \<le> length s"
proof (induction s)
  case Nil
  show ?case by simp
next
  case (Cons c cs)
  show ?case
  proof (cases "c = CHR 0x0A \<or> c = CHR 0x0D")
    case True
    then show ?thesis by (cases cs) auto
  next
    case False
    with Cons show ?thesis by simp
  qed
qed

lemma readline_rest_less: "s \<noteq> [] \<Longrightarrow> length (snd (readline s)) < length s"
proof (cases s)
  case Nil
  assume "s \<noteq> []"
  with Nil show ?thesis by simp
next
  case (Cons c cs)
  have le: "length (snd (readline cs)) \<le> length cs"
    by (rule readline_rest_le)
  show ?thesis
  proof (cases "c = CHR 0x0A \<or> c = CHR 0x0D")
    case True
    with Cons show ?thesis by (cases cs) auto
  next
    case False
    with Cons le show ?thesis by simp
  qed
qed

text \<open>
  The words the loop of \<^verbatim>\<open>generate_lookup\<close> binds, in order:
  \<^verbatim>\<open>while ( word := wordlist_file.readline().rstrip() ): ...\<close>
  The loop ends at the first stripped line that is empty (falsy): at the end of the
  file, and also at the first line that holds nothing but whitespace.
\<close>

function read_words :: "string \<Rightarrow> string list" where
  "read_words content =
     (let word = rstrip (fst (readline content))
      in if word = [] then [] else word # read_words (snd (readline content)))"
  by pat_completeness auto
termination
proof (relation "measure length")
  show "wf (measure length)" by simp
next
  fix content :: string and word :: string
  assume w: "word = rstrip (fst (readline content))" and ne: "word \<noteq> []"
  have "content \<noteq> []"
  proof
    assume "content = []"
    with w have "word = []" by (simp add: rstrip_def)
    with ne show False by simp
  qed
  then show "(snd (readline content), content) \<in> measure length"
    by (simp add: readline_rest_less)
qed

declare read_words.simps [simp del]

subsection \<open>\<^verbatim>\<open>generate_lookup\<close>\<close>

text \<open>
  The body of the loop, on the two dictionaries:
  \<^verbatim>\<open>
  sorted_word = ''.join( sorted(word) )
  if sorted_word not in anagrams:
      anagrams[sorted_word] = set()
      vectors[sorted_word] = vectorize_word(sorted_word)
  anagrams[sorted_word].add(word)
  \<close>
  The last line cannot raise \<^verbatim>\<open>KeyError\<close>: the key is in \<^verbatim>\<open>anagrams\<close> by then.
\<close>

definition add_word :: "anagrams \<times> vectors \<Rightarrow> string \<Rightarrow> anagrams \<times> vectors" where
  "add_word dicts word =
     (case dicts of (anagrams, vectors) \<Rightarrow>
        (let key = sorted_word word;
             (anagrams', vectors') =
               (if map_of anagrams key = None
                then (AList.update key {} anagrams,
                      AList.update key (vectorize_word key) vectors)
                else (anagrams, vectors))
         in (AList.map_entry key (insert word) anagrams', vectors')))"

text \<open>
  The same pass statement by statement: the pairs of dictionaries after each
  assignment the pass executes. For a key not yet in \<^verbatim>\<open>anagrams\<close> these are the pair
  after \<^verbatim>\<open>anagrams[sorted_word] = set()\<close>, the pair after
  \<^verbatim>\<open>vectors[sorted_word] = vectorize_word(sorted_word)\<close> and the pair after
  \<^verbatim>\<open>anagrams[sorted_word].add(word)\<close>; for a key already there, the last one only.
\<close>

definition pass_points :: "anagrams \<times> vectors \<Rightarrow> string \<Rightarrow> (anagrams \<times> vectors) list" where
  "pass_points dicts word =
     (case dicts of (anagrams, vectors) \<Rightarrow>
        (let key = sorted_word word
         in if map_of anagrams key = None
            then [(AList.update key {} anagrams, vectors),
                  (AList.update key {} anagrams,
                   AList.update key (vectorize_word key) vectors),
                  (AList.map_entry key (insert word) (AList.update key {} anagrams),
                   AList.update key (vectorize_word key) vectors)]
            else [(AList.map_entry key (insert word) anagrams, vectors)]))"

text \<open>
  The pairs of dictionaries after each assignment of the passes for the given words,
  from the given pair on.
\<close>

fun points_from :: "anagrams \<times> vectors \<Rightarrow> string list \<Rightarrow> (anagrams \<times> vectors) list" where
  "points_from dicts [] = []"
| "points_from dicts (word # words) =
     pass_points dicts word @ points_from (add_word dicts word) words"

text \<open>
  Every pair of dictionaries the construction goes through on the text \<open>content\<close>:
  the two empty dictionaries, then the pair after each assignment of each pass.
\<close>

definition construction_points :: "string \<Rightarrow> (anagrams \<times> vectors) list" where
  "construction_points content = ([], []) # points_from ([], []) (read_words content)"

text \<open>The two dictionaries when the loop has ended on the text \<open>content\<close>.\<close>

definition build_dicts :: "string \<Rightarrow> anagrams \<times> vectors" where
  "build_dicts content = foldl add_word ([], []) (read_words content)"

text \<open>
  \<^verbatim>\<open>generate_lookup(wordlist_path)\<close>: opening a missing word list raises, reading a
  file that is not UTF-8 raises, and otherwise the pair of dictionaries is pickled
  into \<^verbatim>\<open>lookup.p\<close>.
\<close>

definition generate_lookup :: "filesystem \<Rightarrow> string \<Rightarrow> error + filesystem" where
  "generate_lookup fs wordlist_path =
     (case fs wordlist_path of
        None \<Rightarrow> Inl FileNotFoundError
      | Some wordlist_file \<Rightarrow>
          (case text_of wordlist_file of
             None \<Rightarrow> Inl UnicodeDecodeError
           | Some content \<Rightarrow>
               (case build_dicts content of
                  (anagrams, vectors) \<Rightarrow> Inr (fs(lookup_p \<mapsto> Pickle anagrams vectors)))))"

subsection \<open>\<^verbatim>\<open>get_results\<close>\<close>

text \<open>
  The subanagram test
  \<^verbatim>\<open>all( candidate_vectorized[letter] <= input_vectorized[letter] for letter in range(26) )\<close>
  over the letters still to visit. \<^verbatim>\<open>all\<close> stops at the first false comparison; an
  index past the end of a vector raises \<^verbatim>\<open>IndexError\<close>.
\<close>

fun subanagram_test :: "int list \<Rightarrow> int list \<Rightarrow> nat list \<Rightarrow> error + bool" where
  "subanagram_test candidate_vectorized input_vectorized [] = Inr True"
| "subanagram_test candidate_vectorized input_vectorized (letter # letters) =
     (if length candidate_vectorized \<le> letter \<or> length input_vectorized \<le> letter
      then Inl IndexError
      else if candidate_vectorized ! letter \<le> input_vectorized ! letter
        then subanagram_test candidate_vectorized input_vectorized letters
      else Inr False)"

text \<open>
  The loop over the candidate keys still to visit, with the set collected so far:
  \<^verbatim>\<open>
  for candidate in list( anagrams.keys() ):
      candidate_vectorized = vectors[candidate]
      if all( ... ):
          results_unordered = results_unordered.union( anagrams[candidate] )
  \<close>
\<close>

fun scan_candidates ::
  "anagrams \<Rightarrow> vectors \<Rightarrow> int list \<Rightarrow> string list \<Rightarrow> string set \<Rightarrow> error + string set" where
  "scan_candidates anagrams vectors input_vectorized [] results_unordered =
     Inr results_unordered"
| "scan_candidates anagrams vectors input_vectorized (candidate # candidates) results_unordered =
     (case map_of vectors candidate of
        None \<Rightarrow> Inl KeyError
      | Some candidate_vectorized \<Rightarrow>
          (case subanagram_test candidate_vectorized input_vectorized [0..<26] of
             Inl e \<Rightarrow> Inl e
           | Inr False \<Rightarrow>
               scan_candidates anagrams vectors input_vectorized candidates results_unordered
           | Inr True \<Rightarrow>
               (case map_of anagrams candidate of
                  None \<Rightarrow> Inl KeyError
                | Some words \<Rightarrow>
                    scan_candidates anagrams vectors input_vectorized candidates
                      (results_unordered \<union> words))))"

text \<open>
  \<^verbatim>\<open>get_results(search_input)\<close>: the query is lowercased, the dictionaries are loaded
  from \<^verbatim>\<open>lookup.p\<close> by \<^verbatim>\<open>pickle.load\<close> (which raises, or gives whatever pair the file
  makes it build), the keys are scanned, and the lowercased query is removed from the
  result when it is there.
\<close>

definition get_results :: "filesystem \<Rightarrow> string \<Rightarrow> error + string set" where
  "get_results fs search_input =
     (let search_input' = lower search_input
      in case fs lookup_p of
           None \<Rightarrow> Inl FileNotFoundError
         | Some lookup_file \<Rightarrow>
             (case unpickle lookup_file (texts_of fs) of
                Inl e \<Rightarrow> Inl e
              | Inr (anagrams, vectors) \<Rightarrow>
                  (case scan_candidates anagrams vectors (vectorize_word search_input')
                          (map fst anagrams) {} of
                     Inl e \<Rightarrow> Inl e
                   | Inr results_unordered \<Rightarrow>
                       Inr (if search_input' \<in> results_unordered
                            then results_unordered - {search_input'}
                            else results_unordered))))"

subsection \<open>\<^verbatim>\<open>print_results\<close>\<close>

text \<open>
  The body of the first loop, on the dictionary from lengths to lists of words:
  \<^verbatim>\<open>
  word_length = len(word)
  if word_length not in results_ordered:
      results_ordered[word_length] = list()
  results_ordered[word_length].append(word)
  \<close>
\<close>

definition group_word :: "(nat \<times> string list) list \<Rightarrow> string \<Rightarrow> (nat \<times> string list) list" where
  "group_word results_ordered word =
     (let word_length = length word;
          results_ordered' =
            (if map_of results_ordered word_length = None
             then AList.update word_length [] results_ordered
             else results_ordered)
      in AList.map_entry word_length (\<lambda>words. words @ [word]) results_ordered')"

text \<open>The decimal digits of a number, as the f-string \<^verbatim>\<open>{length}\<close> writes them.\<close>

function str_nat :: "nat \<Rightarrow> string" where
  "str_nat n =
     (if n < 10 then [char_of (48 + n)]
      else str_nat (n div 10) @ [char_of (48 + n mod 10)])"
  by pat_completeness auto
termination
  by (relation "measure (\<lambda>n. n)") auto

declare str_nat.simps [simp del]

text \<open>\<^verbatim>\<open>sep.join(words)\<close>, which is what \<^verbatim>\<open>print(*words, sep=sep, end='')\<close> writes.\<close>

fun join :: "string \<Rightarrow> string list \<Rightarrow> string" where
  "join sep [] = []"
| "join sep [word] = word"
| "join sep (word # words) = word @ sep @ join sep words"

text \<open>
  What the two \<^verbatim>\<open>print\<close> calls write for one length:
  \<^verbatim>\<open>
  print(f"{length}-LETTER SUBANAGRAMS: ", end='\n    ')
  print(*results_ordered[length], sep=",  ", end='\n\n')
  \<close>
\<close>

definition print_group :: "nat \<Rightarrow> string list \<Rightarrow> string" where
  "print_group len words =
     str_nat len @ ''-LETTER SUBANAGRAMS: '' @ [CHR 0x0A] @ ''    '' @
     join '',  '' words @ [CHR 0x0A, CHR 0x0A]"

text \<open>
  \<^verbatim>\<open>print_results(search_input, results_unordered)\<close>, as the text written to the
  standard output. The set is given as the list of its words in the order in which
  the \<^verbatim>\<open>for\<close> loop visits them. The second loop runs over
  \<^verbatim>\<open>range( len(search_input), 1, -1 )\<close>, that is over the lengths
  \<^verbatim>\<open>len(search_input)\<close> down to 2.
\<close>

definition print_results :: "string \<Rightarrow> string list \<Rightarrow> string" where
  "print_results search_input results_unordered =
     (let results_ordered = foldl group_word [] results_unordered
      in concat (map (\<lambda>len.
                   case map_of results_ordered len of
                     None \<Rightarrow> []
                   | Some words \<Rightarrow> print_group len words)
                 (rev [2..<Suc (length search_input)])))"

subsection \<open>\<^verbatim>\<open>main\<close>\<close>



subsection \<open>Inputs to run the program on\<close>

text \<open>
  The word lists below are texts on which \<^verbatim>\<open>pickle.load\<close> raises
  \<^verbatim>\<open>UnpicklingError\<close>.
\<close>

definition word_list :: "string \<Rightarrow> file_content" where
  "word_list content = File (Some content) (\<lambda>texts. Inl UnpicklingError)"

text \<open>The five words \<^verbatim>\<open>arc car ac a cars\<close>, one on each line.\<close>

definition example_words :: string where
  "example_words =
     ''arc'' @ [CHR 0x0A] @ ''car'' @ [CHR 0x0A] @ ''ac'' @ [CHR 0x0A] @ ''a'' @ [CHR 0x0A] @
     ''cars'' @ [CHR 0x0A]"

definition example_fs :: filesystem where
  "example_fs = [''words.txt'' \<mapsto> word_list example_words]"

definition example_anagrams :: anagrams where
  "example_anagrams =
     [(''acr'', {''arc'', ''car''}), (''ac'', {''ac''}), (''a'', {''a''}), (''acrs'', {''cars''})]"

definition example_vectors :: vectors where
  "example_vectors =
     [(''acr'', vectorize_word ''acr''), (''ac'', vectorize_word ''ac''),
      (''a'', vectorize_word ''a''), (''acrs'', vectorize_word ''acrs'')]"

definition example_fs' :: filesystem where
  "example_fs' = example_fs(lookup_p \<mapsto> Pickle example_anagrams example_vectors)"

text \<open>The single word \<^verbatim>\<open>Cat\<close>, with its capital letter.\<close>

definition capital_words :: string where
  "capital_words = ''Cat'' @ [CHR 0x0A]"

definition capital_fs :: filesystem where
  "capital_fs = [''words.txt'' \<mapsto> word_list capital_words]"

definition capital_fs' :: filesystem where
  "capital_fs' = capital_fs(lookup_p \<mapsto> Pickle [(''Cat'', {''Cat''})] [(''Cat'', vectorize_word ''Cat'')])"

text \<open>The words \<^verbatim>\<open>a\<close> and \<^verbatim>\<open>b\<close> with an empty line between them.\<close>

definition blank_line_words :: string where
  "blank_line_words = ''a'' @ [CHR 0x0A, CHR 0x0A] @ ''b'' @ [CHR 0x0A]"

definition blank_line_fs :: filesystem where
  "blank_line_fs = [''words.txt'' \<mapsto> word_list blank_line_words]"









subsection \<open>The invariant of the two dictionaries\<close>

text \<open>
  The keys of \<^verbatim>\<open>anagrams\<close> are distinct (it is a dictionary), \<^verbatim>\<open>vectors\<close> has the same
  keys in the same order, every stored vector is the vector of its key, and every
  word is stored under its sorted form.
\<close>

definition index_inv :: "anagrams \<times> vectors \<Rightarrow> bool" where
  "index_inv dicts =
     (case dicts of (anagrams, vectors) \<Rightarrow>
        distinct (map fst anagrams) \<and> map fst vectors = map fst anagrams \<and>
        (\<forall>key v. map_of vectors key = Some v \<longrightarrow> v = vectorize_word key) \<and>
        (\<forall>key words. map_of anagrams key = Some words \<longrightarrow>
           (\<forall>w\<in>words. sorted_word w = key)))"

text \<open>
  What holds of the two dictionaries inside a pass as well: every key of \<^verbatim>\<open>vectors\<close> is
  a key of \<^verbatim>\<open>anagrams\<close>, every stored vector is the vector of its key, and every word
  is stored under its sorted form.
\<close>

definition within_pass_inv :: "anagrams \<times> vectors \<Rightarrow> bool" where
  "within_pass_inv dicts =
     (case dicts of (anagrams, vectors) \<Rightarrow>
        set (map fst vectors) \<subseteq> set (map fst anagrams) \<and>
        (\<forall>key v. map_of vectors key = Some v \<longrightarrow> v = vectorize_word key) \<and>
        (\<forall>key words. map_of anagrams key = Some words \<longrightarrow>
           (\<forall>w\<in>words. sorted_word w = key)))"

section \<open>Properties\<close>

subsection \<open>Letter counts\<close>

lemma length_ascii_lowercase: "length ascii_lowercase = 26"
  by (simp add: ascii_lowercase_def)

lemma length_vectorize_word: "length (vectorize_word w) = 26"
  by (simp add: vectorize_word_def length_ascii_lowercase)

lemma nth_vectorize_word:
  "i < 26 \<Longrightarrow> vectorize_word w ! i = int (count_list w (ascii_lowercase ! i))"
  by (simp add: vectorize_word_def length_ascii_lowercase)

lemma count_list_mset: "mset w = mset w' \<Longrightarrow> count_list w c = count_list w' c"
  by (metis count_mset)

lemma vectorize_word_mset: "mset w = mset w' \<Longrightarrow> vectorize_word w = vectorize_word w'"
  by (simp add: vectorize_word_def count_list_mset [of w w'])

lemma vectorize_sorted_word: "vectorize_word (sorted_word w) = vectorize_word w"
  by (rule vectorize_word_mset) (simp add: sorted_word_def)

lemma leq_vectorize_iff:
  "(\<forall>i<26. vectorize_word a ! i \<le> vectorize_word b ! i) \<longleftrightarrow>
   (\<forall>c\<in>set ascii_lowercase. count_list a c \<le> count_list b c)"
proof
  assume l: "\<forall>i<26. vectorize_word a ! i \<le> vectorize_word b ! i"
  show "\<forall>c\<in>set ascii_lowercase. count_list a c \<le> count_list b c"
  proof
    fix c assume "c \<in> set ascii_lowercase"
    then obtain i where i: "i < 26" "ascii_lowercase ! i = c"
      by (auto simp: in_set_conv_nth length_ascii_lowercase)
    with l have "vectorize_word a ! i \<le> vectorize_word b ! i" by simp
    with i show "count_list a c \<le> count_list b c"
      by (simp add: nth_vectorize_word)
  qed
next
  assume r: "\<forall>c\<in>set ascii_lowercase. count_list a c \<le> count_list b c"
  show "\<forall>i<26. vectorize_word a ! i \<le> vectorize_word b ! i"
  proof (intro allI impI)
    fix i :: nat assume i: "i < 26"
    then have "ascii_lowercase ! i \<in> set ascii_lowercase"
      by (simp add: length_ascii_lowercase)
    with r have "count_list a (ascii_lowercase ! i) \<le> count_list b (ascii_lowercase ! i)"
      by simp
    with i show "vectorize_word a ! i \<le> vectorize_word b ! i"
      by (simp add: nth_vectorize_word)
  qed
qed

lemma count_list_filter: "P c \<Longrightarrow> count_list (filter P w) c = count_list w c"
  by (induction w) auto

lemma vectorize_word_filter:
  "vectorize_word (filter (\<lambda>c. c \<in> set ascii_lowercase) w) = vectorize_word w"
  by (simp add: vectorize_word_def count_list_filter)

lemma sum_count_letters:
  "(\<Sum>c\<in>set ascii_lowercase. count_list w c) =
   length (filter (\<lambda>c. c \<in> set ascii_lowercase) w)"
proof -
  let ?w = "filter (\<lambda>c. c \<in> set ascii_lowercase) w"
  have "(\<Sum>c\<in>set ascii_lowercase. count_list w c) = (\<Sum>c\<in>set ascii_lowercase. count_list ?w c)"
    by (rule sum.cong) (simp_all add: count_list_filter)
  also have "\<dots> = length ?w"
    by (rule sum_count_set) auto
  finally show ?thesis .
qed

lemma subanagram_test_Inr:
  "\<forall>l\<in>set ls. l < length cv \<and> l < length iv \<Longrightarrow>
   subanagram_test cv iv ls = Inr (\<forall>l\<in>set ls. cv ! l \<le> iv ! l)"
  by (induction ls) auto

lemma subanagram_test_26:
  "length cv = 26 \<Longrightarrow> length iv = 26 \<Longrightarrow>
   subanagram_test cv iv [0..<26] = Inr (\<forall>i<26. cv ! i \<le> iv ! i)"
  using subanagram_test_Inr [of "[0..<26]" cv iv] by auto

subsection \<open>Lowercasing\<close>

lemma length_lower: "length (lower q) = length q"
  by (simp add: lower_def)

lemma lower_char_idem: "lower_char (lower_char c) = lower_char c"
  by (auto simp: lower_char_def Let_def)

lemma lower_char_letter: "c \<in> set ascii_lowercase \<Longrightarrow> lower_char c = c"
  by (auto simp: ascii_lowercase_def lower_char_def)

lemma count_list_lower_ge:
  assumes "c \<in> set ascii_lowercase"
  shows "count_list q c \<le> count_list (lower q) c"
proof -
  have "count_list q c \<le> count_list (map lower_char q) (lower_char c)"
    by (rule count_list_map_ge)
  with assms show ?thesis by (simp add: lower_def lower_char_letter)
qed

lemma lower_perm_self:
  assumes "mset (lower q) = mset q"
  shows "lower q = q"
proof -
  from assms have "set (lower q) = set q" by (rule mset_eq_setD)
  then have "lower_char x = x" if "x \<in> set q" for x
  proof -
    from that \<open>set (lower q) = set q\<close> have "x \<in> lower_char ` set q"
      by (simp add: lower_def)
    then obtain y where "x = lower_char y" by blast
    then show ?thesis by (simp add: lower_char_idem)
  qed
  then show ?thesis by (simp add: lower_def map_idI)
qed

lemma sorted_word_eq_mset: "sorted_word w = sorted_word q \<Longrightarrow> mset w = mset q"
  by (metis mset_sort sorted_word_def)

subsection \<open>The loop of \<^verbatim>\<open>generate_lookup\<close> keeps the invariant\<close>

lemma map_fst_map_entry: "map fst (AList.map_entry k f al) = map fst al"
  by (induction al) auto

lemma map_of_None_keys: "map_of al k = None \<longleftrightarrow> k \<notin> set (map fst al)"
  by (simp add: map_of_eq_None_iff)

lemma index_inv_empty: "index_inv ([], [])"
  by (simp add: index_inv_def)

lemma map_of_add_word_anagrams:
  "map_of (fst (add_word (anagrams, vectors) word)) =
   (map_of anagrams)(sorted_word word \<mapsto>
      insert word (case map_of anagrams (sorted_word word) of None \<Rightarrow> {} | Some ws \<Rightarrow> ws))"
proof (cases "map_of anagrams (sorted_word word)")
  case None
  then show ?thesis
    by (simp add: add_word_def Let_def map_of_map_entry update_conv')
next
  case (Some ws)
  then show ?thesis
    by (simp add: add_word_def Let_def map_of_map_entry)
qed

lemma map_of_add_word_vectors:
  "map_of (snd (add_word (anagrams, vectors) word)) =
   (if map_of anagrams (sorted_word word) = None
    then (map_of vectors)(sorted_word word \<mapsto> vectorize_word (sorted_word word))
    else map_of vectors)"
  by (simp add: add_word_def Let_def update_conv')

lemma keys_add_word_anagrams:
  "map fst (fst (add_word (anagrams, vectors) word)) =
   (if sorted_word word \<in> set (map fst anagrams) then map fst anagrams
    else map fst anagrams @ [sorted_word word])"
  by (simp add: add_word_def Let_def map_fst_map_entry update_keys map_of_None_keys)

lemma keys_add_word_vectors:
  "map fst (snd (add_word (anagrams, vectors) word)) =
   (if sorted_word word \<in> set (map fst anagrams) then map fst vectors
    else if sorted_word word \<in> set (map fst vectors) then map fst vectors
    else map fst vectors @ [sorted_word word])"
  by (simp add: add_word_def Let_def update_keys map_of_None_keys)

lemma index_inv_add_word:
  assumes "index_inv (anagrams, vectors)"
  shows "index_inv (add_word (anagrams, vectors) word)"
proof -
  let ?k = "sorted_word word"
  let ?r = "add_word (anagrams, vectors) word"
  from assms have d: "distinct (map fst anagrams)"
    and k: "map fst vectors = map fst anagrams"
    and v: "\<And>key v. map_of vectors key = Some v \<Longrightarrow> v = vectorize_word key"
    and a: "\<And>key words w. map_of anagrams key = Some words \<Longrightarrow> w \<in> words \<Longrightarrow> sorted_word w = key"
    by (auto simp: index_inv_def)
  have 1: "distinct (map fst (fst ?r))"
    using d by (simp add: keys_add_word_anagrams)
  have 2: "map fst (snd ?r) = map fst (fst ?r)"
    using k by (simp add: keys_add_word_anagrams keys_add_word_vectors)
  have 3: "v' = vectorize_word key" if "map_of (snd ?r) key = Some v'" for key v'
    using that v [of key v']
    by (cases "key = ?k") (simp_all add: map_of_add_word_vectors split: if_splits)
  have 4: "sorted_word w = key"
    if m: "map_of (fst ?r) key = Some words" and w: "w \<in> words" for key words w
  proof (cases "key = ?k")
    case False
    with m have "map_of anagrams key = Some words"
      by (simp add: map_of_add_word_anagrams)
    then show ?thesis using w by (rule a)
  next
    case True
    with m have ws: "words = insert word (case map_of anagrams ?k of None \<Rightarrow> {} | Some ws \<Rightarrow> ws)"
      by (simp add: map_of_add_word_anagrams)
    show ?thesis
    proof (cases "map_of anagrams ?k")
      case None
      with ws w True show ?thesis by simp
    next
      case (Some ws')
      with ws w have "w = word \<or> w \<in> ws'" by simp
      then show ?thesis
      proof
        assume "w = word" with True show ?thesis by simp
      next
        assume "w \<in> ws'"
        with Some have "sorted_word w = ?k" by (simp add: a)
        with True show ?thesis by simp
      qed
    qed
  qed
  obtain a' v' where r: "?r = (a', v')" by (cases ?r)
  with 1 2 3 4 show ?thesis
    unfolding index_inv_def by (simp; blast)
qed

lemma index_inv_foldl:
  "index_inv dicts \<Longrightarrow> index_inv (foldl add_word dicts ws)"
proof (induction ws arbitrary: dicts)
  case Nil
  then show ?case by simp
next
  case (Cons w ws)
  obtain a v where dv: "dicts = (a, v)" by (cases dicts)
  with Cons.prems have "index_inv (add_word dicts w)"
    by (simp add: index_inv_add_word)
  then show ?case using Cons.IH by simp
qed

lemma index_inv_build_dicts: "index_inv (build_dicts content)"
  by (simp add: build_dicts_def index_inv_foldl index_inv_empty)

lemma index_inv_vectors:
  assumes "index_inv (anagrams, vectors)" and "key \<in> set (map fst anagrams)"
  shows "map_of vectors key = Some (vectorize_word key)"
proof -
  from assms have "key \<in> set (map fst vectors)"
    by (simp add: index_inv_def)
  then have "map_of vectors key \<noteq> None"
    by (simp add: map_of_None_keys)
  then obtain v where v: "map_of vectors key = Some v" by blast
  with assms(1) have "v = vectorize_word key"
    by (simp add: index_inv_def)
  with v show ?thesis by simp
qed

lemma index_inv_claim:
  assumes "index_inv (anagrams, vectors)"
  shows "set (map fst anagrams) = set (map fst vectors) \<and>
     (\<forall>key\<in>set (map fst anagrams).
        map_of vectors key = Some (vectorize_word key) \<and>
        (\<exists>words. map_of anagrams key = Some words \<and> (\<forall>w\<in>words. sorted_word w = key)))"
proof (intro conjI ballI)
  from assms show "set (map fst anagrams) = set (map fst vectors)"
    by (simp add: index_inv_def)
next
  fix key assume k: "key \<in> set (map fst anagrams)"
  with assms show "map_of vectors key = Some (vectorize_word key)"
    by (rule index_inv_vectors)
  from k have "map_of anagrams key \<noteq> None"
    by (simp add: map_of_None_keys)
  then obtain words where w: "map_of anagrams key = Some words" by blast
  with assms have "\<forall>w\<in>words. sorted_word w = key"
    by (auto simp: index_inv_def)
  with w show "\<exists>words. map_of anagrams key = Some words \<and> (\<forall>w\<in>words. sorted_word w = key)"
    by blast
qed

lemma unpickle_Pickle: "unpickle (Pickle anagrams vectors) texts = Inr (anagrams, vectors)"
  by (simp add: Pickle_def)

lemma Pickle_eq_iff:
  "Pickle anagrams vectors = Pickle anagrams' vectors' \<longleftrightarrow>
   anagrams = anagrams' \<and> vectors = vectors'"
proof
  assume "Pickle anagrams vectors = Pickle anagrams' vectors'"
  then have "unpickle (Pickle anagrams vectors) Map.empty =
      unpickle (Pickle anagrams' vectors') Map.empty"
    by simp
  then show "anagrams = anagrams' \<and> vectors = vectors'"
    by (simp add: unpickle_Pickle)
next
  assume "anagrams = anagrams' \<and> vectors = vectors'"
  then show "Pickle anagrams vectors = Pickle anagrams' vectors'" by simp
qed

lemma generate_lookup_Inr:
  assumes "generate_lookup fs wordlist_path = Inr fs'"
  shows "\<exists>wordlist_file content.
     fs wordlist_path = Some wordlist_file \<and> text_of wordlist_file = Some content \<and>
     fs' = fs(lookup_p \<mapsto> Pickle (fst (build_dicts content)) (snd (build_dicts content)))"
  using assms
  by (auto simp: generate_lookup_def split: option.splits prod.splits)

lemma generate_lookup_table:
  assumes "generate_lookup fs wordlist_path = Inr fs'"
  shows "\<exists>anagrams vectors. fs' lookup_p = Some (Pickle anagrams vectors)"
  using generate_lookup_Inr [OF assms] by fastforce

lemma generate_lookup_index_inv:
  assumes "generate_lookup fs wordlist_path = Inr fs'"
    and "fs' lookup_p = Some (Pickle anagrams vectors)"
  shows "index_inv (anagrams, vectors)"
proof -
  from assms(1) obtain content where
    "fs' = fs(lookup_p \<mapsto> Pickle (fst (build_dicts content)) (snd (build_dicts content)))"
    using generate_lookup_Inr by blast
  with assms(2) have "(anagrams, vectors) = build_dicts content"
    by (auto simp: prod_eq_iff Pickle_eq_iff)
  then show ?thesis by (simp add: index_inv_build_dicts)
qed

subsection \<open>Inside a pass of the loop\<close>

lemma add_word_last_point: "add_word dicts word = last (pass_points dicts word)"
  by (cases dicts) (simp add: add_word_def pass_points_def Let_def)

lemma index_inv_within_pass:
  assumes "index_inv dicts"
  shows "within_pass_inv dicts"
proof -
  obtain anagrams vectors where d: "dicts = (anagrams, vectors)" by (cases dicts)
  from assms have k: "map fst vectors = map fst anagrams"
    and v: "\<forall>key v. map_of vectors key = Some v \<longrightarrow> v = vectorize_word key"
    and a: "\<forall>key words. map_of anagrams key = Some words \<longrightarrow>
           (\<forall>w\<in>words. sorted_word w = key)"
    unfolding d index_inv_def prod.case by blast+
  from k have "set (map fst vectors) \<subseteq> set (map fst anagrams)" by simp
  with v a show ?thesis
    unfolding d within_pass_inv_def prod.case by blast
qed

lemma pass_points_within_pass_inv:
  assumes inv: "index_inv (anagrams, vectors)"
    and p: "p \<in> set (pass_points (anagrams, vectors) word)"
  shows "within_pass_inv p"
proof -
  let ?k = "sorted_word word"
  from inv have k: "map fst vectors = map fst anagrams"
    and v: "\<And>key v. map_of vectors key = Some v \<Longrightarrow> v = vectorize_word key"
    and a: "\<And>key words w. map_of anagrams key = Some words \<Longrightarrow> w \<in> words \<Longrightarrow> sorted_word w = key"
    by (auto simp: index_inv_def)
  have last: "within_pass_inv (add_word (anagrams, vectors) word)"
    using inv by (intro index_inv_within_pass index_inv_add_word)
  show ?thesis
  proof (cases "map_of anagrams ?k = None")
    case False
    with p have "p = add_word (anagrams, vectors) word"
      by (auto simp: pass_points_def add_word_def Let_def)
    with last show ?thesis by simp
  next
    case True
    have 1: "within_pass_inv (AList.update ?k {} anagrams, vectors)"
      unfolding within_pass_inv_def prod.case
    proof (intro conjI allI impI ballI)
      show "set (map fst vectors) \<subseteq> set (map fst (AList.update ?k {} anagrams))"
        by (auto simp: k update_keys)
    next
      fix key v' assume "map_of vectors key = Some v'"
      then show "v' = vectorize_word key" by (rule v)
    next
      fix key words w
      assume m: "map_of (AList.update ?k {} anagrams) key = Some words" and w: "w \<in> words"
      show "sorted_word w = key"
      proof (cases "key = ?k")
        case True
        with m w show ?thesis by (simp add: update_conv')
      next
        case False
        with m have "map_of anagrams key = Some words" by (simp add: update_conv')
        then show ?thesis using w by (rule a)
      qed
    qed
    have 2: "within_pass_inv (AList.update ?k {} anagrams,
        AList.update ?k (vectorize_word ?k) vectors)"
      unfolding within_pass_inv_def prod.case
    proof (intro conjI allI impI ballI)
      show "set (map fst (AList.update ?k (vectorize_word ?k) vectors)) \<subseteq>
          set (map fst (AList.update ?k {} anagrams))"
        by (auto simp: k update_keys)
    next
      fix key v' assume "map_of (AList.update ?k (vectorize_word ?k) vectors) key = Some v'"
      then show "v' = vectorize_word key"
        using v [of key v'] by (cases "key = ?k") (simp_all add: update_conv')
    next
      fix key words w
      assume m: "map_of (AList.update ?k {} anagrams) key = Some words" and w: "w \<in> words"
      show "sorted_word w = key"
      proof (cases "key = ?k")
        case True
        with m w show ?thesis by (simp add: update_conv')
      next
        case False
        with m have "map_of anagrams key = Some words" by (simp add: update_conv')
        then show ?thesis using w by (rule a)
      qed
    qed
    from True p have "p = (AList.update ?k {} anagrams, vectors) \<or>
        p = (AList.update ?k {} anagrams, AList.update ?k (vectorize_word ?k) vectors) \<or>
        p = add_word (anagrams, vectors) word"
      by (simp add: pass_points_def add_word_def Let_def)
    with 1 2 last show ?thesis by blast
  qed
qed

lemma points_from_within_pass_inv:
  "index_inv dicts \<Longrightarrow> p \<in> set (points_from dicts words) \<Longrightarrow> within_pass_inv p"
proof (induction words arbitrary: dicts)
  case Nil
  then show ?case by simp
next
  case (Cons word words)
  obtain a v where dv: "dicts = (a, v)" by (cases dicts)
  from Cons.prems(2) have "p \<in> set (pass_points dicts word) \<or>
      p \<in> set (points_from (add_word dicts word) words)"
    by simp
  then show ?case
  proof
    assume "p \<in> set (pass_points dicts word)"
    with Cons.prems(1) show ?thesis
      unfolding dv by (rule pass_points_within_pass_inv)
  next
    assume q: "p \<in> set (points_from (add_word dicts word) words)"
    from Cons.prems(1) have "index_inv (add_word dicts word)"
      unfolding dv by (rule index_inv_add_word)
    then show ?thesis using q by (rule Cons.IH)
  qed
qed

lemma construction_points_within_pass_inv:
  "p \<in> set (construction_points content) \<Longrightarrow> within_pass_inv p"
  using points_from_within_pass_inv [of "([], [])" p "read_words content"]
  by (auto simp: construction_points_def index_inv_empty index_inv_within_pass)

lemma foldl_add_word_point:
  "foldl add_word dicts (take n words) \<in> set (dicts # points_from dicts words)"
proof (induction words arbitrary: dicts n)
  case Nil
  show ?case by simp
next
  case (Cons word words)
  show ?case
  proof (cases n)
    case 0
    then show ?thesis by simp
  next
    case (Suc m)
    have "foldl add_word (add_word dicts word) (take m words) \<in>
        set (add_word dicts word # points_from (add_word dicts word) words)"
      by (rule Cons.IH)
    moreover have "add_word dicts word \<in> set (pass_points dicts word)"
      by (cases dicts) (simp add: add_word_def pass_points_def Let_def)
    ultimately show ?thesis using Suc by auto
  qed
qed


lemma within_pass_inv_claim:
  assumes "within_pass_inv (anagrams, vectors)"
  shows "set (map fst vectors) \<subseteq> set (map fst anagrams) \<and>
     (\<forall>key\<in>set (map fst vectors). map_of vectors key = Some (vectorize_word key)) \<and>
     (\<forall>key words. map_of anagrams key = Some words \<longrightarrow>
        (\<forall>w\<in>words. sorted_word w = key))"
proof (intro conjI ballI)
  from assms show "set (map fst vectors) \<subseteq> set (map fst anagrams)"
    by (simp add: within_pass_inv_def)
next
  fix key assume "key \<in> set (map fst vectors)"
  then have "map_of vectors key \<noteq> None" by (simp add: map_of_None_keys)
  then obtain v where v: "map_of vectors key = Some v" by blast
  with assms have "v = vectorize_word key"
    unfolding within_pass_inv_def prod.case by blast
  with v show "map_of vectors key = Some (vectorize_word key)" by simp
next
  from assms show "\<forall>key words. map_of anagrams key = Some words \<longrightarrow>
        (\<forall>w\<in>words. sorted_word w = key)"
    unfolding within_pass_inv_def prod.case by blast
qed

subsection \<open>The scan over a table that satisfies the invariant\<close>

lemma scan_candidates_inv:
  assumes "index_inv (anagrams, vectors)" and "length iv = 26"
    and "set ks \<subseteq> set (map fst anagrams)"
  shows "scan_candidates anagrams vectors iv ks R =
    Inr (R \<union> \<Union>{words. \<exists>key\<in>set ks. map_of anagrams key = Some words \<and>
                         (\<forall>i<26. vectorize_word key ! i \<le> iv ! i)})"
  using assms(3)
proof (induction ks arbitrary: R)
  case Nil
  show ?case by simp
next
  case (Cons candidate ks)
  let ?P = "\<lambda>key. \<forall>i<26. vectorize_word key ! i \<le> iv ! i"
  let ?U = "\<lambda>ks. \<Union>{words. \<exists>key\<in>set ks. map_of anagrams key = Some words \<and> ?P key}"
  from Cons.prems have c: "candidate \<in> set (map fst anagrams)"
    and ks: "set ks \<subseteq> set (map fst anagrams)" by simp_all
  from assms(1) c have v: "map_of vectors candidate = Some (vectorize_word candidate)"
    by (rule index_inv_vectors)
  have t: "subanagram_test (vectorize_word candidate) iv [0..<26] = Inr (?P candidate)"
    using assms(2) by (simp add: subanagram_test_26 length_vectorize_word)
  from c have "map_of anagrams candidate \<noteq> None"
    by (simp add: map_of_None_keys)
  then obtain words where w: "map_of anagrams candidate = Some words" by blast
  show ?case
  proof (cases "?P candidate")
    case True
    have "scan_candidates anagrams vectors iv (candidate # ks) R =
        scan_candidates anagrams vectors iv ks (R \<union> words)"
      using v t w True by simp
    also have "\<dots> = Inr (R \<union> words \<union> ?U ks)"
      using ks by (rule Cons.IH)
    also have "R \<union> words \<union> ?U ks = R \<union> ?U (candidate # ks)"
      using w True by auto
    finally show ?thesis .
  next
    case False
    have "scan_candidates anagrams vectors iv (candidate # ks) R =
        scan_candidates anagrams vectors iv ks R"
      using v t w False by simp
    also have "\<dots> = Inr (R \<union> ?U ks)"
      using ks by (rule Cons.IH)
    also have "R \<union> ?U ks = R \<union> ?U (candidate # ks)"
      using False by auto
    finally show ?thesis .
  qed
qed

lemma get_results_index:
  assumes "fs lookup_p = Some (Pickle anagrams vectors)" and "index_inv (anagrams, vectors)"
  shows "get_results fs q =
    Inr (\<Union>{words. \<exists>key. map_of anagrams key = Some words \<and>
                   (\<forall>i<26. vectorize_word key ! i \<le> vectorize_word (lower q) ! i)}
         - {lower q})"
proof -
  let ?iv = "vectorize_word (lower q)"
  have "scan_candidates anagrams vectors ?iv (map fst anagrams) {} =
    Inr ({} \<union> \<Union>{words. \<exists>key\<in>set (map fst anagrams). map_of anagrams key = Some words \<and>
                         (\<forall>i<26. vectorize_word key ! i \<le> ?iv ! i)})"
    using assms(2) by (intro scan_candidates_inv) (simp_all add: length_vectorize_word)
  moreover have "{words. \<exists>key\<in>set (map fst anagrams). map_of anagrams key = Some words \<and>
                         (\<forall>i<26. vectorize_word key ! i \<le> ?iv ! i)} =
     {words. \<exists>key. map_of anagrams key = Some words \<and>
                         (\<forall>i<26. vectorize_word key ! i \<le> ?iv ! i)}"
  proof -
    have "key \<in> set (map fst anagrams)" if "map_of anagrams key = Some words" for key words
      using that map_of_None_keys [of anagrams key] by auto
    then show ?thesis by blast
  qed
  ultimately show ?thesis
    using assms(1) by (simp add: get_results_def Let_def unpickle_Pickle)
qed

lemma indexed_word_key:
  assumes "index_inv (anagrams, vectors)" and "map_of anagrams key = Some words" and "w \<in> words"
  shows "key = sorted_word w"
  using assms by (auto simp: index_inv_def)

lemma in_get_results_iff:
  assumes fs: "fs lookup_p = Some (Pickle anagrams vectors)"
    and inv: "index_inv (anagrams, vectors)"
    and key: "map_of anagrams key = Some words" and w: "w \<in> words"
    and R: "get_results fs q = Inr R"
  shows "w \<in> R \<longleftrightarrow>
    w \<noteq> lower q \<and>
    (\<forall>letter\<in>set ascii_lowercase. count_list w letter \<le> count_list (lower q) letter)"
proof -
  let ?P = "\<lambda>key. \<forall>i<26. vectorize_word key ! i \<le> vectorize_word (lower q) ! i"
  let ?U = "\<Union>{words. \<exists>key. map_of anagrams key = Some words \<and> ?P key}"
  from fs inv have "get_results fs q = Inr (?U - {lower q})"
    by (rule get_results_index)
  with R have R': "R = ?U - {lower q}" by simp
  from inv key w have k: "key = sorted_word w" by (rule indexed_word_key)
  have "w \<in> ?U \<longleftrightarrow> ?P key"
  proof
    assume "w \<in> ?U"
    then obtain key' words' where k': "map_of anagrams key' = Some words'" "w \<in> words'" "?P key'"
      by blast
    from inv k'(1,2) have "key' = sorted_word w" by (rule indexed_word_key)
    with k k'(3) show "?P key" by simp
  next
    assume "?P key"
    with key w show "w \<in> ?U" by blast
  qed
  also have "?P key \<longleftrightarrow> ?P w"
    by (simp add: k vectorize_sorted_word)
  also have "?P w \<longleftrightarrow>
    (\<forall>letter\<in>set ascii_lowercase. count_list w letter \<le> count_list (lower q) letter)"
    by (rule leq_vectorize_iff)
  finally show ?thesis using R' by blast
qed

lemma get_results_indexed:
  assumes fs: "fs lookup_p = Some (Pickle anagrams vectors)"
    and inv: "index_inv (anagrams, vectors)"
    and R: "get_results fs q = Inr R" and w: "w \<in> R"
  shows "\<exists>key words. map_of anagrams key = Some words \<and> w \<in> words"
proof -
  let ?P = "\<lambda>key. \<forall>i<26. vectorize_word key ! i \<le> vectorize_word (lower q) ! i"
  let ?U = "\<Union>{words. \<exists>key. map_of anagrams key = Some words \<and> ?P key}"
  from fs inv have "get_results fs q = Inr (?U - {lower q})"
    by (rule get_results_index)
  with R have "R = ?U - {lower q}" by simp
  with w have "w \<in> ?U" by blast
  then show ?thesis by blast
qed

subsection \<open>A run with the table in place\<close>



subsection \<open>The program on the inputs\<close>

lemma example_build_dicts: "build_dicts example_words = (example_anagrams, example_vectors)"
  unfolding example_words_def example_anagrams_def example_vectors_def
  by code_simp

lemma example_generate_lookup: "generate_lookup example_fs ''words.txt'' = Inr example_fs'"
  by (simp add: generate_lookup_def example_fs_def example_fs'_def word_list_def
      example_build_dicts)

lemma example_lookup_p: "example_fs' lookup_p = Some (Pickle example_anagrams example_vectors)"
  by (simp add: example_fs'_def)

lemma example_get_results: "get_results example_fs' ''Cars'' = Inr {''arc'', ''car'', ''ac'', ''a''}"
  unfolding example_fs'_def example_fs_def example_anagrams_def example_vectors_def
  by code_simp

lemma capital_build_dicts:
  "build_dicts capital_words = ([(''Cat'', {''Cat''})], [(''Cat'', vectorize_word ''Cat'')])"
  unfolding capital_words_def by code_simp

lemma capital_generate_lookup: "generate_lookup capital_fs ''words.txt'' = Inr capital_fs'"
  by (simp add: generate_lookup_def capital_fs_def capital_fs'_def word_list_def
      capital_build_dicts)

lemma capital_construction_points:
  "construction_points capital_words =
     [([], []),
      ([(''Cat'', {})], []),
      ([(''Cat'', {})], [(''Cat'', vectorize_word ''Cat'')]),
      ([(''Cat'', {''Cat''})], [(''Cat'', vectorize_word ''Cat'')])]"
  unfolding capital_words_def by code_simp



section \<open>The claims\<close>

text \<open>
  Claim C1. On a table built by \<^verbatim>\<open>generate_lookup\<close>, \<^verbatim>\<open>get_results\<close> returns for every
  query \<open>q\<close> the union of the word sets of the keys whose stored 26-entry vector is,
  entry by entry, at most the vector of the lowercased query, without the lowercased
  query itself. Equivalently: an indexed word \<open>w\<close> other than the lowercased query is
  in the result if and only if every lowercase letter occurs in \<open>w\<close> at most as often
  as in the lowercased query.
\<close>

theorem get_results_dominance:
  assumes gen: "generate_lookup fs wordlist_path = Inr fs'"
    and tab: "fs' lookup_p = Some (Pickle anagrams vectors)"
  shows "get_results fs' q =
      Inr (\<Union>{words. \<exists>key v. map_of anagrams key = Some words \<and> map_of vectors key = Some v \<and>
                      length v = 26 \<and> (\<forall>i<26. v ! i \<le> vectorize_word (lower q) ! i)}
           - {lower q}) \<and>
    (\<forall>key words w. map_of anagrams key = Some words \<and> w \<in> words \<and> w \<noteq> lower q \<longrightarrow>
       ((\<exists>R. get_results fs' q = Inr R \<and> w \<in> R) \<longleftrightarrow>
        (\<forall>letter\<in>set ascii_lowercase. count_list w letter \<le> count_list (lower q) letter)))"
proof (intro conjI allI impI)
  let ?iv = "vectorize_word (lower q)"
  from gen tab have inv: "index_inv (anagrams, vectors)"
    by (rule generate_lookup_index_inv)
  have stored: "(\<exists>v. map_of vectors key = Some v \<and> length v = 26 \<and> (\<forall>i<26. v ! i \<le> ?iv ! i)) \<longleftrightarrow>
      (\<forall>i<26. vectorize_word key ! i \<le> ?iv ! i)"
    if "map_of anagrams key = Some words" for key words
  proof -
    from that have "key \<in> set (map fst anagrams)"
      using map_of_None_keys [of anagrams key] by auto
    with inv have "map_of vectors key = Some (vectorize_word key)"
      by (rule index_inv_vectors)
    then show ?thesis by (simp add: length_vectorize_word)
  qed
  have "{words. \<exists>key v. map_of anagrams key = Some words \<and> map_of vectors key = Some v \<and>
                      length v = 26 \<and> (\<forall>i<26. v ! i \<le> ?iv ! i)} =
     {words. \<exists>key. map_of anagrams key = Some words \<and> (\<forall>i<26. vectorize_word key ! i \<le> ?iv ! i)}"
    using stored by blast
  with get_results_index [of fs' anagrams vectors q, OF tab inv]
  show "get_results fs' q =
      Inr (\<Union>{words. \<exists>key v. map_of anagrams key = Some words \<and> map_of vectors key = Some v \<and>
                      length v = 26 \<and> (\<forall>i<26. v ! i \<le> ?iv ! i)}
           - {lower q})"
    by simp
next
  fix key words w
  assume a: "map_of anagrams key = Some words \<and> w \<in> words \<and> w \<noteq> lower q"
  from gen tab have inv: "index_inv (anagrams, vectors)"
    by (rule generate_lookup_index_inv)
  obtain R where R: "get_results fs' q = Inr R"
    using get_results_index [of fs' anagrams vectors q, OF tab inv] by blast
  from a have "w \<in> R \<longleftrightarrow> w \<noteq> lower q \<and>
      (\<forall>letter\<in>set ascii_lowercase. count_list w letter \<le> count_list (lower q) letter)"
    using in_get_results_iff [of fs' anagrams vectors key words w q R, OF tab inv _ _ R] by blast
  with a R show "(\<exists>R. get_results fs' q = Inr R \<and> w \<in> R) \<longleftrightarrow>
        (\<forall>letter\<in>set ascii_lowercase. count_list w letter \<le> count_list (lower q) letter)"
    by auto
qed

theorem get_results_dominance_witness:
  "generate_lookup example_fs ''words.txt'' = Inr example_fs' \<and>
   example_fs' lookup_p = Some (Pickle example_anagrams example_vectors) \<and>
   get_results example_fs' ''Cars'' =
      Inr (\<Union>{words. \<exists>key v. map_of example_anagrams key = Some words \<and>
                      map_of example_vectors key = Some v \<and>
                      length v = 26 \<and> (\<forall>i<26. v ! i \<le> vectorize_word (lower ''Cars'') ! i)}
           - {lower ''Cars''}) \<and>
   get_results example_fs' ''Cars'' = Inr {''arc'', ''car'', ''ac'', ''a''} \<and>
   map_of example_anagrams ''acr'' = Some {''arc'', ''car''} \<and> ''arc'' \<in> {''arc'', ''car''} \<and>
   ''arc'' \<noteq> lower ''Cars'' \<and>
   ((\<exists>R. get_results example_fs' ''Cars'' = Inr R \<and> ''arc'' \<in> R) \<longleftrightarrow>
    (\<forall>letter\<in>set ascii_lowercase.
        count_list ''arc'' letter \<le> count_list (lower ''Cars'') letter))"
proof -
  note inst = get_results_dominance [of example_fs "''words.txt''" example_fs' example_anagrams example_vectors "''Cars''", OF example_generate_lookup example_lookup_p]
  have k: "map_of example_anagrams ''acr'' = Some {''arc'', ''car''}"
    by (simp add: example_anagrams_def)
  have m: "''arc'' \<in> {''arc'', ''car''}" by simp
  have n: "''arc'' \<noteq> lower ''Cars''" by (simp add: lower_def)
  from inst k m n have
    "(\<exists>R. get_results example_fs' ''Cars'' = Inr R \<and> ''arc'' \<in> R) \<longleftrightarrow>
     (\<forall>letter\<in>set ascii_lowercase.
        count_list ''arc'' letter \<le> count_list (lower ''Cars'') letter)"
    by blast
  with inst k m n example_generate_lookup example_lookup_p example_get_results
  show ?thesis by blast
qed

text \<open>
  Claim C2 says that the result for a query \<open>w\<close> never contains \<open>w\<close> when \<open>w\<close> is a
  word of the word list, whatever its casing. What \<^verbatim>\<open>get_results\<close> removes is the
  lowercased query, and \<^verbatim>\<open>generate_lookup\<close> stores the words as they are written: on
  the word list that holds \<^verbatim>\<open>Cat\<close>, the result for the query \<^verbatim>\<open>Cat\<close> contains
  \<^verbatim>\<open>Cat\<close>.
\<close>

theorem self_exclusion_counterexample:
  "read_words capital_words = [''Cat''] \<and>
   capital_fs ''words.txt'' = Some (word_list capital_words) \<and>
   generate_lookup capital_fs ''words.txt'' = Inr capital_fs' \<and>
   get_results capital_fs' ''Cat'' = Inr {''Cat''} \<and>
   ''Cat'' \<in> {''Cat''}"
proof -
  have "get_results capital_fs' ''Cat'' = Inr {''Cat''}"
    unfolding capital_fs'_def capital_fs_def by code_simp
  moreover have "''Cat'' \<in> {''Cat''}" by simp
  moreover have "read_words capital_words = [''Cat'']"
    unfolding capital_words_def by code_simp
  moreover have "capital_fs ''words.txt'' = Some (word_list capital_words)"
    by (simp add: capital_fs_def)
  ultimately show ?thesis
    using capital_generate_lookup by blast
qed

text \<open>
  Claim C2, amended. On a table built by \<^verbatim>\<open>generate_lookup\<close>, \<^verbatim>\<open>get_results\<close> returns
  a set that never contains the lowercased query; so the result for a query that is
  its own lowercase form, such as a word of a lowercase word list, never contains the
  query.
\<close>

theorem self_exclusion_lowercase:
  assumes gen: "generate_lookup fs wordlist_path = Inr fs'"
  shows "\<exists>R. get_results fs' q = Inr R \<and> lower q \<notin> R \<and> (lower q = q \<longrightarrow> q \<notin> R)"
proof -
  from gen obtain content where
    fs': "fs' = fs(lookup_p \<mapsto> Pickle (fst (build_dicts content)) (snd (build_dicts content)))"
    using generate_lookup_Inr by blast
  then have tab: "fs' lookup_p = Some (Pickle (fst (build_dicts content)) (snd (build_dicts content)))"
    by simp
  have inv: "index_inv (fst (build_dicts content), snd (build_dicts content))"
    by (simp add: index_inv_build_dicts)
  from get_results_index [of fs' "fst (build_dicts content)" "snd (build_dicts content)" q, OF tab inv]
  show ?thesis by auto
qed

theorem self_exclusion_lowercase_witness:
  "generate_lookup example_fs ''words.txt'' = Inr example_fs' \<and>
   lower ''car'' = ''car'' \<and>
   (\<exists>R. get_results example_fs' ''car'' = Inr R \<and> ''car'' \<notin> R)"
proof -
  have l: "lower ''car'' = ''car''" by (simp add: lower_def lower_char_def)
  from self_exclusion_lowercase [of example_fs "''words.txt''" example_fs' "''car''",
      OF example_generate_lookup] l
  have "\<exists>R. get_results example_fs' ''car'' = Inr R \<and> ''car'' \<notin> R" by auto
  with l example_generate_lookup show ?thesis by blast
qed

text \<open>
  Claim C3. On a table built by \<^verbatim>\<open>generate_lookup\<close>, an indexed word \<open>w\<close> that has the
  signature of the query (of the lowercased query, and also of the query as typed) and
  is not the query itself is in the result of \<^verbatim>\<open>get_results\<close>: the key of the query is
  scanned like every other key. The only indexed word that passes the subanagram test
  and is missing from the result is the lowercased query.
\<close>

theorem anagrams_of_query_retained:
  assumes gen: "generate_lookup fs wordlist_path = Inr fs'"
    and tab: "fs' lookup_p = Some (Pickle anagrams vectors)"
    and key: "map_of anagrams key = Some words" and w: "w \<in> words"
  shows "\<exists>R. get_results fs' q = Inr R \<and>
      (sorted_word w = sorted_word (lower q) \<and> w \<noteq> lower q \<longrightarrow> w \<in> R) \<and>
      (sorted_word w = sorted_word q \<and> w \<noteq> q \<longrightarrow> w \<in> R) \<and>
      ((\<forall>letter\<in>set ascii_lowercase. count_list w letter \<le> count_list (lower q) letter) \<and>
        w \<notin> R \<longrightarrow> w = lower q)"
proof -
  from gen tab have inv: "index_inv (anagrams, vectors)"
    by (rule generate_lookup_index_inv)
  obtain R where R: "get_results fs' q = Inr R"
    using get_results_index [of fs' anagrams vectors q, OF tab inv] by blast
  have iff: "w \<in> R \<longleftrightarrow> w \<noteq> lower q \<and>
      (\<forall>letter\<in>set ascii_lowercase. count_list w letter \<le> count_list (lower q) letter)"
    using in_get_results_iff [of fs' anagrams vectors key words w q R, OF tab inv key w R] .
  have 1: "w \<in> R" if s: "sorted_word w = sorted_word (lower q)" and n: "w \<noteq> lower q"
  proof -
    from s have "mset w = mset (lower q)" by (rule sorted_word_eq_mset)
    then have "count_list w letter = count_list (lower q) letter" for letter
      by (rule count_list_mset)
    with n iff show ?thesis by simp
  qed
  have 2: "w \<in> R" if s: "sorted_word w = sorted_word q" and n: "w \<noteq> q"
  proof -
    from s have m: "mset w = mset q" by (rule sorted_word_eq_mset)
    then have c: "count_list w letter = count_list q letter" for letter
      by (rule count_list_mset)
    have "w \<noteq> lower q"
    proof
      assume e: "w = lower q"
      with m have "mset (lower q) = mset q" by simp
      then have "lower q = q" by (rule lower_perm_self)
      with e n show False by simp
    qed
    moreover have "\<forall>letter\<in>set ascii_lowercase. count_list w letter \<le> count_list (lower q) letter"
      by (simp add: c count_list_lower_ge)
    ultimately show ?thesis using iff by simp
  qed
  from R iff 1 2 show ?thesis by blast
qed

theorem anagrams_of_query_retained_witness:
  "generate_lookup example_fs ''words.txt'' = Inr example_fs' \<and>
   example_fs' lookup_p = Some (Pickle example_anagrams example_vectors) \<and>
   map_of example_anagrams ''acr'' = Some {''arc'', ''car''} \<and> ''arc'' \<in> {''arc'', ''car''} \<and>
   sorted_word ''arc'' = sorted_word (lower ''Car'') \<and> ''arc'' \<noteq> lower ''Car'' \<and>
   sorted_word ''arc'' = sorted_word ''car'' \<and> ''arc'' \<noteq> ''car'' \<and>
   (\<exists>R. get_results example_fs' ''Car'' = Inr R \<and> ''arc'' \<in> R) \<and>
   (\<exists>R. get_results example_fs' ''car'' = Inr R \<and> ''arc'' \<in> R) \<and>
   get_results example_fs' ''car'' = Inr {''arc'', ''ac'', ''a''} \<and>
   ''car'' \<notin> {''arc'', ''ac'', ''a''} \<and> ''car'' = lower ''car''"
proof -
  have k: "map_of example_anagrams ''acr'' = Some {''arc'', ''car''}"
    by (simp add: example_anagrams_def)
  have m: "''arc'' \<in> {''arc'', ''car''}" by simp
  have lc: "lower ''Car'' = ''car''" by code_simp
  have s1: "sorted_word ''arc'' = sorted_word (lower ''Car'')"
    by (simp add: lc sorted_word_def)
  have n1: "''arc'' \<noteq> lower ''Car''" by (simp add: lc)
  have s2: "sorted_word ''arc'' = sorted_word ''car''"
    by (simp add: sorted_word_def)
  have n2: "''arc'' \<noteq> ''car''" by simp
  from anagrams_of_query_retained [of example_fs "''words.txt''" example_fs' example_anagrams
      example_vectors "''acr''" "{''arc'', ''car''}" "''arc''" "''Car''",
      OF example_generate_lookup example_lookup_p k m] s1 n1
  have a: "\<exists>R. get_results example_fs' ''Car'' = Inr R \<and> ''arc'' \<in> R" by blast
  from anagrams_of_query_retained [of example_fs "''words.txt''" example_fs' example_anagrams
      example_vectors "''acr''" "{''arc'', ''car''}" "''arc''" "''car''",
      OF example_generate_lookup example_lookup_p k m] s2 n2
  have b: "\<exists>R. get_results example_fs' ''car'' = Inr R \<and> ''arc'' \<in> R" by blast
  have g: "get_results example_fs' ''car'' = Inr {''arc'', ''ac'', ''a''}"
    unfolding example_fs'_def example_fs_def example_anagrams_def example_vectors_def
    by code_simp
  have n3: "''car'' \<notin> {''arc'', ''ac'', ''a''}" by simp
  have m3: "''car'' \<in> {''arc'', ''car''}" by simp
  have c3: "\<forall>letter\<in>set ascii_lowercase.
      count_list ''car'' letter \<le> count_list (lower ''car'') letter"
    using count_list_lower_ge [of _ "''car''"] by blast
  from anagrams_of_query_retained [of example_fs "''words.txt''" example_fs' example_anagrams
      example_vectors "''acr''" "{''arc'', ''car''}" "''car''" "''car''",
      OF example_generate_lookup example_lookup_p k m3] g n3 c3
  have e: "''car'' = lower ''car''" by auto
  from example_generate_lookup example_lookup_p k m s1 n1 s2 n2 a b g n3 e
  show ?thesis by blast
qed

text \<open>
  Claim C4 says that no word of the result is longer than the query, whatever the
  word list. The subanagram test counts the 26 lowercase letters only, so a word with
  other characters can pass it against a shorter query: on the word list that holds
  \<^verbatim>\<open>Cat\<close>, the result for the query \<^verbatim>\<open>at\<close> contains \<^verbatim>\<open>Cat\<close>.
\<close>

theorem result_length_counterexample:
  "generate_lookup capital_fs ''words.txt'' = Inr capital_fs' \<and>
   get_results capital_fs' ''at'' = Inr {''Cat''} \<and>
   length ''at'' < length ''Cat''"
proof -
  have "get_results capital_fs' ''at'' = Inr {''Cat''}"
    unfolding capital_fs'_def capital_fs_def by code_simp
  with capital_generate_lookup show ?thesis by simp
qed

text \<open>
  Claim C4, amended. On a table built by \<^verbatim>\<open>generate_lookup\<close>, every word of the result
  for a query \<open>q\<close> has at most \<open>len(q)\<close> lowercase letters a to z; so a word of the
  result that is made of these letters only, as every word of a lowercase word list
  is, is not longer than the query.
\<close>

theorem result_length_bound:
  assumes gen: "generate_lookup fs wordlist_path = Inr fs'"
    and R: "get_results fs' q = Inr R" and w: "w \<in> R"
  shows "length (filter (\<lambda>c. c \<in> set ascii_lowercase) w) \<le> length q \<and>
    (set w \<subseteq> set ascii_lowercase \<longrightarrow> length w \<le> length q)"
proof -
  let ?L = "\<lambda>c. c \<in> set ascii_lowercase"
  from gen obtain anagrams vectors where tab: "fs' lookup_p = Some (Pickle anagrams vectors)"
    using generate_lookup_table by blast
  from gen tab have inv: "index_inv (anagrams, vectors)"
    by (rule generate_lookup_index_inv)
  from tab inv R w obtain key words where
    key: "map_of anagrams key = Some words" and ww: "w \<in> words"
    using get_results_indexed [of fs' anagrams vectors q R w] by blast
  from w have le: "\<forall>letter\<in>set ascii_lowercase. count_list w letter \<le> count_list (lower q) letter"
    using in_get_results_iff [of fs' anagrams vectors key words w q R, OF tab inv key ww R]
    by blast
  have "length (filter ?L w) = (\<Sum>c\<in>set ascii_lowercase. count_list w c)"
    by (simp add: sum_count_letters)
  also have "\<dots> \<le> (\<Sum>c\<in>set ascii_lowercase. count_list (lower q) c)"
    using le by (intro sum_mono) simp
  also have "\<dots> = length (filter ?L (lower q))"
    by (simp add: sum_count_letters)
  also have "\<dots> \<le> length (lower q)"
    by (rule length_filter_le)
  finally have b: "length (filter ?L w) \<le> length q"
    by (simp add: length_lower)
  have "length w \<le> length q" if "set w \<subseteq> set ascii_lowercase"
  proof -
    from that have "filter ?L w = w" by (auto intro: filter_True)
    with b show ?thesis by simp
  qed
  with b show ?thesis by blast
qed

theorem result_length_bound_witness:
  "generate_lookup example_fs ''words.txt'' = Inr example_fs' \<and>
   get_results example_fs' ''Cars'' = Inr {''arc'', ''car'', ''ac'', ''a''} \<and>
   ''arc'' \<in> {''arc'', ''car'', ''ac'', ''a''} \<and>
   set ''arc'' \<subseteq> set ascii_lowercase \<and>
   length ''arc'' \<le> length ''Cars''"
proof -
  have m: "''arc'' \<in> {''arc'', ''car'', ''ac'', ''a''}" by simp
  have s: "set ''arc'' \<subseteq> set ascii_lowercase" by (simp add: ascii_lowercase_def)
  from result_length_bound [of example_fs "''words.txt''" example_fs' "''Cars''"
      "{''arc'', ''car'', ''ac'', ''a''}" "''arc''",
      OF example_generate_lookup example_get_results m] s
  have "length ''arc'' \<le> length ''Cars''" by blast
  with example_generate_lookup example_get_results m s show ?thesis by blast
qed

text \<open>
  Claim C5 says that blank lines are skipped and that every word of the source is
  indexed, the words after a blank line too. The loop of \<^verbatim>\<open>generate_lookup\<close> ends at
  the first line that is empty once stripped, which is how it detects the end of the
  file: on the lines \<^verbatim>\<open>a\<close>, an empty line, \<^verbatim>\<open>b\<close> it reads the word \<^verbatim>\<open>a\<close> only, the
  table has the single key \<^verbatim>\<open>a\<close>, and the query \<^verbatim>\<open>ab\<close> does not find \<^verbatim>\<open>b\<close>.
\<close>

theorem generate_lookup_stops_at_blank_line:
  "read_words blank_line_words = [''a''] \<and>
   generate_lookup blank_line_fs ''words.txt'' =
     Inr (blank_line_fs(lookup_p \<mapsto> Pickle [(''a'', {''a''})] [(''a'', vectorize_word ''a'')])) \<and>
   get_results (blank_line_fs(lookup_p \<mapsto> Pickle [(''a'', {''a''})] [(''a'', vectorize_word ''a'')]))
     ''ab'' = Inr {''a''}"
proof -
  have r: "read_words blank_line_words = [''a'']"
    unfolding blank_line_words_def by code_simp
  have b: "build_dicts blank_line_words = ([(''a'', {''a''})], [(''a'', vectorize_word ''a'')])"
    unfolding blank_line_words_def by code_simp
  have g: "generate_lookup blank_line_fs ''words.txt'' =
     Inr (blank_line_fs(lookup_p \<mapsto> Pickle [(''a'', {''a''})] [(''a'', vectorize_word ''a'')]))"
    by (simp add: generate_lookup_def blank_line_fs_def word_list_def b)
  have q: "get_results (blank_line_fs(lookup_p \<mapsto> Pickle [(''a'', {''a''})] [(''a'', vectorize_word ''a'')]))
     ''ab'' = Inr {''a''}"
    unfolding blank_line_fs_def by code_simp
  from r g q show ?thesis by (intro conjI)
qed

text \<open>
  Claim C6. On a table built by \<^verbatim>\<open>generate_lookup\<close> in which every key holds at least
  one lowercase letter a to z, the result for the empty query is the empty set: the
  vector of the empty query is zero everywhere, and every key has a positive entry.
\<close>

theorem empty_query_empty_result:
  assumes gen: "generate_lookup fs wordlist_path = Inr fs'"
    and tab: "fs' lookup_p = Some (Pickle anagrams vectors)"
    and letters: "\<forall>key\<in>set (map fst anagrams). \<exists>c\<in>set key. c \<in> set ascii_lowercase"
  shows "get_results fs' [] = Inr {}"
proof -
  from gen tab have inv: "index_inv (anagrams, vectors)"
    by (rule generate_lookup_index_inv)
  have no: "\<not> (\<forall>i<26. vectorize_word key ! i \<le> vectorize_word (lower []) ! i)"
    if "map_of anagrams key = Some words" for key words
  proof -
    from that have "key \<in> set (map fst anagrams)"
      using map_of_None_keys [of anagrams key] by auto
    with letters obtain c where c: "c \<in> set key" "c \<in> set ascii_lowercase" by blast
    from c(1) have "count_list key c \<noteq> 0" by (simp add: count_list_0_iff)
    then have "\<not> count_list key c \<le> count_list (lower []) c" by (simp add: lower_def)
    with c(2) show ?thesis
      using leq_vectorize_iff [of key "lower []"] by blast
  qed
  then have "{words. \<exists>key. map_of anagrams key = Some words \<and>
      (\<forall>i<26. vectorize_word key ! i \<le> vectorize_word (lower []) ! i)} = {}"
    by blast
  with get_results_index [of fs' anagrams vectors "[]", OF tab inv]
  show ?thesis by simp
qed

theorem empty_query_empty_result_witness:
  "generate_lookup example_fs ''words.txt'' = Inr example_fs' \<and>
   example_fs' lookup_p = Some (Pickle example_anagrams example_vectors) \<and>
   map fst example_anagrams = [''acr'', ''ac'', ''a'', ''acrs''] \<and>
   get_results example_fs' [] = Inr {}"
proof -
  have k: "map fst example_anagrams = [''acr'', ''ac'', ''a'', ''acrs'']"
    by (simp add: example_anagrams_def)
  have l: "\<forall>key\<in>set (map fst example_anagrams). \<exists>c\<in>set key. c \<in> set ascii_lowercase"
    by (simp add: k ascii_lowercase_def)
  from empty_query_empty_result [of example_fs "''words.txt''" example_fs' example_anagrams
      example_vectors, OF example_generate_lookup example_lookup_p l]
    example_generate_lookup example_lookup_p k
  show ?thesis by blast
qed

text \<open>
  Claim C7. \<^verbatim>\<open>vectorize_word\<close> is a function of the multiset of the characters of its
  argument: a permutation \<open>w'\<close> of \<open>w\<close> has the same vector. The vector always has
  26 entries; entry \<open>i\<close> is the number of occurrences of the \<open>i\<close>-th lowercase Latin
  letter, which is not negative; and removing every character that is not one of
  these letters (an uppercase letter, a digit, punctuation) leaves the vector as it
  is.
\<close>

theorem vectorize_word_anagram_invariant:
  "(mset w' = mset w \<longrightarrow> vectorize_word w' = vectorize_word w) \<and>
   length (vectorize_word w) = 26 \<and>
   (\<forall>i<26. 0 \<le> vectorize_word w ! i \<and>
            vectorize_word w ! i = int (count_list w (ascii_lowercase ! i))) \<and>
   vectorize_word (filter (\<lambda>c. c \<in> set ascii_lowercase) w) = vectorize_word w"
proof (intro conjI impI allI)
  assume "mset w' = mset w"
  then show "vectorize_word w' = vectorize_word w" by (rule vectorize_word_mset)
next
  show "length (vectorize_word w) = 26" by (rule length_vectorize_word)
next
  fix i :: nat assume "i < 26"
  then show "0 \<le> vectorize_word w ! i" by (simp add: nth_vectorize_word)
next
  fix i :: nat assume "i < 26"
  then show "vectorize_word w ! i = int (count_list w (ascii_lowercase ! i))"
    by (rule nth_vectorize_word)
next
  show "vectorize_word (filter (\<lambda>c. c \<in> set ascii_lowercase) w) = vectorize_word w"
    by (rule vectorize_word_filter)
qed

theorem vectorize_word_anagram_invariant_witness:
  "mset ''cab'' = mset ''abc'' \<and>
   vectorize_word ''cab'' = vectorize_word ''abc'' \<and>
   vectorize_word ''abc'' = [1,1,1,0,0,0,0,0,0,0,0,0,0,0,0,0,0,0,0,0,0,0,0,0,0,0] \<and>
   vectorize_word ''aBc-'' ! 1 = 0"
proof -
  have h: "mset ''cab'' = mset ''abc''" by simp
  have v: "vectorize_word ''abc'' = [1,1,1,0,0,0,0,0,0,0,0,0,0,0,0,0,0,0,0,0,0,0,0,0,0,0]"
    by (simp add: vectorize_word_def ascii_lowercase_def)
  have b: "vectorize_word ''aBc-'' ! 1 = 0"
    using vectorize_word_anagram_invariant [of "''aBc-''" "''aBc-''"]
    by (simp add: ascii_lowercase_def)
  from h v b vectorize_word_anagram_invariant [of "''cab''" "''abc''"]
  show ?thesis by blast
qed

text \<open>
  Claim C8 says that the two dictionaries have the same keys at every point of the
  construction. A pass for a new key first runs \<^verbatim>\<open>anagrams[sorted_word] = set()\<close> and
  then \<^verbatim>\<open>vectors[sorted_word] = vectorize_word(sorted_word)\<close>; between the two,
  \<^verbatim>\<open>anagrams\<close> has a key that \<^verbatim>\<open>vectors\<close> lacks. On the word list that holds
  \<^verbatim>\<open>Cat\<close>, the second pair of dictionaries the construction goes through is
  \<^verbatim>\<open>{'Cat': set()}\<close> and \<^verbatim>\<open>{}\<close>.
\<close>

theorem dictionaries_co_keyed_counterexample:
  "read_words capital_words = [''Cat''] \<and>
   construction_points capital_words ! 1 = ([(''Cat'', {})], []) \<and>
   set (map fst [(''Cat'', {} :: string set)]) \<noteq> set (map fst ([] :: vectors))"
proof -
  have "read_words capital_words = [''Cat'']"
    unfolding capital_words_def by code_simp
  moreover have "construction_points capital_words ! 1 = ([(''Cat'', {})], [])"
    by (simp add: capital_construction_points)
  moreover have "set (map fst [(''Cat'', {} :: string set)]) \<noteq> set (map fst ([] :: vectors))"
    by simp
  ultimately show ?thesis by (intro conjI)
qed

text \<open>
  Claim C8, amended. After every pass of the loop of \<^verbatim>\<open>generate_lookup\<close> (the state
  after \<open>n\<close> words, for every \<open>n\<close>) and in the table it writes, \<^verbatim>\<open>anagrams\<close> and
  \<^verbatim>\<open>vectors\<close> have the same keys, and for every key \<^verbatim>\<open>vectors[key]\<close> is
  \<^verbatim>\<open>vectorize_word(key)\<close> and every word of \<^verbatim>\<open>anagrams[key]\<close> sorts to the key. These
  states are points of the construction, and at every point of the construction,
  inside a pass too, every key of \<^verbatim>\<open>vectors\<close> is a key of \<^verbatim>\<open>anagrams\<close>,
  \<^verbatim>\<open>vectors[key]\<close> is \<^verbatim>\<open>vectorize_word(key)\<close> for every key of \<^verbatim>\<open>vectors\<close>, and every
  word of \<^verbatim>\<open>anagrams[key]\<close> sorts to the key.
\<close>

theorem dictionaries_co_keyed:
  "(\<forall>n. case foldl add_word ([], []) (take n (read_words content)) of
          (anagrams, vectors) \<Rightarrow>
            set (map fst anagrams) = set (map fst vectors) \<and>
            (\<forall>key\<in>set (map fst anagrams).
               map_of vectors key = Some (vectorize_word key) \<and>
               (\<exists>words. map_of anagrams key = Some words \<and>
                  (\<forall>w\<in>words. sorted_word w = key)))) \<and>
   (generate_lookup fs wordlist_path = Inr fs' \<longrightarrow>
      (\<exists>anagrams vectors. fs' lookup_p = Some (Pickle anagrams vectors) \<and>
         set (map fst anagrams) = set (map fst vectors) \<and>
         (\<forall>key\<in>set (map fst anagrams).
            map_of vectors key = Some (vectorize_word key) \<and>
            (\<exists>words. map_of anagrams key = Some words \<and>
               (\<forall>w\<in>words. sorted_word w = key))))) \<and>
   (\<forall>n. foldl add_word ([], []) (take n (read_words content)) \<in>
          set (construction_points content)) \<and>
   (\<forall>p\<in>set (construction_points content).
      case p of
        (anagrams, vectors) \<Rightarrow>
          set (map fst vectors) \<subseteq> set (map fst anagrams) \<and>
          (\<forall>key\<in>set (map fst vectors). map_of vectors key = Some (vectorize_word key)) \<and>
          (\<forall>key words. map_of anagrams key = Some words \<longrightarrow>
             (\<forall>w\<in>words. sorted_word w = key)))"
proof -
  have A: "\<forall>n. case foldl add_word ([], []) (take n (read_words content)) of
          (anagrams, vectors) \<Rightarrow>
            set (map fst anagrams) = set (map fst vectors) \<and>
            (\<forall>key\<in>set (map fst anagrams).
               map_of vectors key = Some (vectorize_word key) \<and>
               (\<exists>words. map_of anagrams key = Some words \<and>
                  (\<forall>w\<in>words. sorted_word w = key)))"
  proof
    fix n
    obtain anagrams vectors where
      st: "foldl add_word ([], []) (take n (read_words content)) = (anagrams, vectors)"
      by (cases "foldl add_word ([], []) (take n (read_words content))")
    have "index_inv (foldl add_word ([], []) (take n (read_words content)))"
      by (simp add: index_inv_foldl index_inv_empty)
    with st have "index_inv (anagrams, vectors)" by simp
    then show "case foldl add_word ([], []) (take n (read_words content)) of
          (anagrams, vectors) \<Rightarrow>
            set (map fst anagrams) = set (map fst vectors) \<and>
            (\<forall>key\<in>set (map fst anagrams).
               map_of vectors key = Some (vectorize_word key) \<and>
               (\<exists>words. map_of anagrams key = Some words \<and>
                  (\<forall>w\<in>words. sorted_word w = key)))"
      unfolding st prod.case by (rule index_inv_claim)
  qed
  have B: "generate_lookup fs wordlist_path = Inr fs' \<longrightarrow>
      (\<exists>anagrams vectors. fs' lookup_p = Some (Pickle anagrams vectors) \<and>
         set (map fst anagrams) = set (map fst vectors) \<and>
         (\<forall>key\<in>set (map fst anagrams).
            map_of vectors key = Some (vectorize_word key) \<and>
            (\<exists>words. map_of anagrams key = Some words \<and>
               (\<forall>w\<in>words. sorted_word w = key))))"
  proof
    assume gen: "generate_lookup fs wordlist_path = Inr fs'"
    then obtain anagrams vectors where tab: "fs' lookup_p = Some (Pickle anagrams vectors)"
      using generate_lookup_table by blast
    with gen have "index_inv (anagrams, vectors)"
      by (rule generate_lookup_index_inv)
    then have "set (map fst anagrams) = set (map fst vectors) \<and>
         (\<forall>key\<in>set (map fst anagrams).
            map_of vectors key = Some (vectorize_word key) \<and>
            (\<exists>words. map_of anagrams key = Some words \<and>
               (\<forall>w\<in>words. sorted_word w = key)))"
      by (rule index_inv_claim)
    with tab show "\<exists>anagrams vectors. fs' lookup_p = Some (Pickle anagrams vectors) \<and>
         set (map fst anagrams) = set (map fst vectors) \<and>
         (\<forall>key\<in>set (map fst anagrams).
            map_of vectors key = Some (vectorize_word key) \<and>
            (\<exists>words. map_of anagrams key = Some words \<and>
               (\<forall>w\<in>words. sorted_word w = key)))"
      by blast
  qed
  have C: "\<forall>n. foldl add_word ([], []) (take n (read_words content)) \<in>
          set (construction_points content)"
    unfolding construction_points_def by (intro allI foldl_add_word_point)
  have D: "\<forall>p\<in>set (construction_points content).
      case p of
        (anagrams, vectors) \<Rightarrow>
          set (map fst vectors) \<subseteq> set (map fst anagrams) \<and>
          (\<forall>key\<in>set (map fst vectors). map_of vectors key = Some (vectorize_word key)) \<and>
          (\<forall>key words. map_of anagrams key = Some words \<longrightarrow>
             (\<forall>w\<in>words. sorted_word w = key))"
  proof
    fix p assume "p \<in> set (construction_points content)"
    then have w: "within_pass_inv p" by (rule construction_points_within_pass_inv)
    obtain anagrams vectors where p: "p = (anagrams, vectors)" by (cases p)
    from w show "case p of
        (anagrams, vectors) \<Rightarrow>
          set (map fst vectors) \<subseteq> set (map fst anagrams) \<and>
          (\<forall>key\<in>set (map fst vectors). map_of vectors key = Some (vectorize_word key)) \<and>
          (\<forall>key words. map_of anagrams key = Some words \<longrightarrow>
             (\<forall>w\<in>words. sorted_word w = key))"
      unfolding p prod.case by (rule within_pass_inv_claim)
  qed
  from A B C D show ?thesis by (intro conjI)
qed

theorem dictionaries_co_keyed_witness:
  "foldl add_word ([], []) (take 3 (read_words example_words)) =
     ([(''acr'', {''arc'', ''car''}), (''ac'', {''ac''})],
      [(''acr'', vectorize_word ''acr''), (''ac'', vectorize_word ''ac'')]) \<and>
   set (map fst [(''acr'', {''arc'', ''car''}), (''ac'', {''ac''})]) =
     set (map fst [(''acr'', vectorize_word ''acr''), (''ac'', vectorize_word ''ac'')]) \<and>
   generate_lookup example_fs ''words.txt'' = Inr example_fs' \<and>
   (\<exists>anagrams vectors. example_fs' lookup_p = Some (Pickle anagrams vectors) \<and>
      set (map fst anagrams) = set (map fst vectors)) \<and>
   ([(''Cat'', {})], []) \<in> set (construction_points capital_words) \<and>
   set (map fst ([] :: vectors)) \<subseteq> set (map fst [(''Cat'', {} :: string set)])"
proof -
  note inst = dictionaries_co_keyed [of example_words example_fs "''words.txt''" example_fs']
  have st: "foldl add_word ([], []) (take 3 (read_words example_words)) =
     ([(''acr'', {''arc'', ''car''}), (''ac'', {''ac''})],
      [(''acr'', vectorize_word ''acr''), (''ac'', vectorize_word ''ac'')])"
    unfolding example_words_def by code_simp
  have k: "set (map fst [(''acr'', {''arc'', ''car''}), (''ac'', {''ac''})]) =
     set (map fst [(''acr'', vectorize_word ''acr''), (''ac'', vectorize_word ''ac'')])"
    using inst [THEN conjunct1, THEN spec, of 3] unfolding st prod.case
    by (rule conjunct1)
  have f: "\<exists>anagrams vectors. example_fs' lookup_p = Some (Pickle anagrams vectors) \<and>
      set (map fst anagrams) = set (map fst vectors)"
    using inst [THEN conjunct2, THEN conjunct1, THEN mp, OF example_generate_lookup] by blast
  have m: "([(''Cat'', {})], []) \<in> set (construction_points capital_words)"
    by (simp add: capital_construction_points)
  have s: "set (map fst ([] :: vectors)) \<subseteq> set (map fst [(''Cat'', {} :: string set)])"
    using dictionaries_co_keyed [of capital_words example_fs "''words.txt''" example_fs',
        THEN conjunct2, THEN conjunct2, THEN conjunct2, THEN bspec, OF m]
    unfolding prod.case by (rule conjunct1)
  from st k example_generate_lookup f m s show ?thesis
    by (intro conjI)
qed

text \<open>
  Claim C9 says that every length with a word in the result set is printed, length 1
  included. The loop of \<^verbatim>\<open>print_results\<close> runs over
  \<^verbatim>\<open>range( len(search_input), 1, -1 )\<close>, which ends at 2: for the query \<^verbatim>\<open>ab\<close> and the
  result \<^verbatim>\<open>a\<close> nothing is printed, and of the results \<^verbatim>\<open>a\<close>, \<^verbatim>\<open>ba\<close>, \<^verbatim>\<open>b\<close> only the
  group of length 2 is.
\<close>

theorem print_results_omits_single_letters:
  "print_results ''ab'' [''a''] = [] \<and>
   print_results ''ab'' [''a'', ''ba'', ''b''] =
     ''2-LETTER SUBANAGRAMS: '' @ [CHR 0x0A] @ ''    ba'' @ [CHR 0x0A, CHR 0x0A]"
proof -
  have 1: "print_results ''ab'' [''a''] = []" by code_simp
  have 2: "print_results ''ab'' [''a'', ''ba'', ''b''] =
     ''2-LETTER SUBANAGRAMS: '' @ [CHR 0x0A] @ ''    ba'' @ [CHR 0x0A, CHR 0x0A]"
    by code_simp
  from 1 2 show ?thesis by (intro conjI)
qed




end
